theory Spec2Isabelle
  imports Main
begin

section \<open>Data model of \<^verbatim>\<open>build/models.py\<close>\<close>

text \<open>
  Rows are referenced by their primary keys. Python integers are \<open>int\<close>; a table is the
  list of its rows in storage order. The free-text attributes of a build (title, URL,
  notes), the notes of a stock item and the audit text handed to the stock movement are
  written but never read by any operation below and are left out of the rows.
\<close>

type_synonym part = nat
type_synonym user = nat
type_synonym location = nat
type_synonym date = nat

datatype error =
    DoesNotExist
  | MultipleObjectsReturned
  | IntegrityError
  | InsufficientStock
  | OperationalError
  | ValidationError "string list"

record bom_item =
  bom_part :: part
  bom_sub_part :: part
  bom_quantity :: int

record stock_item =
  si_id :: nat
  si_part :: part
  si_location :: location
  si_quantity :: int
  si_batch :: string

record build_item =
  bi_id :: nat
  bi_build :: nat
  bi_stock_item :: nat
  bi_quantity :: int

record build =
  b_id :: nat
  b_part :: part
  b_quantity :: int
  b_status :: nat
  b_batch :: "string option"
  b_creation_date :: date
  b_completion_date :: "date option"
  b_completed_by :: "user option"

record db =
  bom_items :: "bom_item list"
  stock_items :: "stock_item list"
  build_items :: "build_item list"
  builds :: "build list"

text \<open>The build status codes.\<close>

definition PENDING :: nat where "PENDING = 10"
definition ALLOCATED :: nat where "ALLOCATED = 20"
definition CANCELLED :: nat where "CANCELLED = 30"
definition COMPLETE :: nat where "COMPLETE = 40"

section \<open>Queries on the tables\<close>

text \<open>\<^verbatim>\<open>self.part.bom_items.all()\<close>: the BOM lines whose parent is the given part.\<close>

definition part_bom_items :: "part \<Rightarrow> db \<Rightarrow> bom_item list" where
  "part_bom_items p d = filter (\<lambda>item. bom_part item = p) (bom_items d)"

text \<open>\<^verbatim>\<open>StockItem.objects.filter(part=...)\<close>.\<close>

definition StockItem_filter_part :: "part \<Rightarrow> db \<Rightarrow> stock_item list" where
  "StockItem_filter_part p d = filter (\<lambda>s. si_part s = p) (stock_items d)"

text \<open>Following the foreign key \<^verbatim>\<open>item.stock_item\<close>: the row with that primary key.\<close>

definition StockItem_get :: "nat \<Rightarrow> db \<Rightarrow> stock_item option" where
  "StockItem_get pk d = find (\<lambda>s. si_id s = pk) (stock_items d)"

text \<open>\<^verbatim>\<open>self.allocated_stock.all()\<close>: the allocation records of the build.\<close>

definition allocated_stock :: "build \<Rightarrow> db \<Rightarrow> build_item list" where
  "allocated_stock self d = filter (\<lambda>i. bi_build i = b_id self) (build_items d)"

section \<open>Quantity accounting\<close>

text \<open>
  \<^verbatim>\<open>BomItem.objects.get(part=, sub_part=)\<close> raises \<open>DoesNotExist\<close> on no row, which
  \<open>getRequiredQuantity\<close> catches, and \<open>MultipleObjectsReturned\<close> on several rows,
  which it does not catch.
\<close>

definition getRequiredQuantity :: "build \<Rightarrow> part \<Rightarrow> db \<Rightarrow> error + int" where
  "getRequiredQuantity self p d =
     (case filter (\<lambda>item. bom_part item = b_part self \<and> bom_sub_part item = p) (bom_items d) of
        [] \<Rightarrow> Inr 0
      | [item] \<Rightarrow> Inr (bom_quantity item * b_quantity self)
      | _ \<Rightarrow> Inl MultipleObjectsReturned)"

text \<open>
  The join \<^verbatim>\<open>stock_item__part=part.id\<close> keeps the records of the build whose stock item
  exists and has the given part.
\<close>

definition allocated_to_part :: "build \<Rightarrow> part \<Rightarrow> db \<Rightarrow> build_item list" where
  "allocated_to_part self p d =
     filter (\<lambda>i. bi_build i = b_id self \<and>
                 (case StockItem_get (bi_stock_item i) d of
                    None \<Rightarrow> False
                  | Some s \<Rightarrow> si_part s = p))
            (build_items d)"

text \<open>
  \<^verbatim>\<open>aggregate(Sum('quantity'))\<close> is computed by the database. It is \<open>None\<close> over no
  rows. The database adds the values as signed 64-bit integers, row by row, and the query
  raises \<open>OperationalError\<close> as soon as a partial sum leaves that range.
\<close>

definition in_int64 :: "int \<Rightarrow> bool" where
  "in_int64 x = (- (2 ^ 63) \<le> x \<and> x \<le> 2 ^ 63 - 1)"

fun sum_int64 :: "int \<Rightarrow> int list \<Rightarrow> error + int" where
  "sum_int64 acc [] = Inr acc"
| "sum_int64 acc (x # xs) =
     (if in_int64 (acc + x) then sum_int64 (acc + x) xs else Inl OperationalError)"

definition aggregate_Sum_quantity :: "build_item list \<Rightarrow> error + int option" where
  "aggregate_Sum_quantity rows =
     (if rows = [] then Inr None
      else (case sum_int64 0 (map bi_quantity rows) of
              Inl e \<Rightarrow> Inl e
            | Inr q \<Rightarrow> Inr (Some q)))"

definition getAllocatedQuantity :: "build \<Rightarrow> part \<Rightarrow> db \<Rightarrow> error + int" where
  "getAllocatedQuantity self p d =
     (case aggregate_Sum_quantity (allocated_to_part self p d) of
        Inl e \<Rightarrow> Inl e
      | Inr None \<Rightarrow> Inr 0
      | Inr (Some q) \<Rightarrow> (if q \<noteq> 0 then Inr q else Inr 0))"

text \<open>The required quantity is evaluated first, then the allocated quantity.\<close>

definition getUnallocatedQuantity :: "build \<Rightarrow> part \<Rightarrow> db \<Rightarrow> error + int" where
  "getUnallocatedQuantity self p d =
     (case getRequiredQuantity self p d of
        Inl e \<Rightarrow> Inl e
      | Inr required \<Rightarrow>
          (case getAllocatedQuantity self p d of
             Inl e \<Rightarrow> Inl e
           | Inr allocated \<Rightarrow> Inr (max (required - allocated) 0)))"

section \<open>Derived views\<close>

record required_part =
  rp_part :: part
  rp_per_build :: int
  rp_quantity :: int
  rp_allocated :: int

text \<open>
  \<open>required_parts\<close> builds its list line by line; an error of the allocated-quantity
  query for a line ends it.
\<close>

fun required_parts_loop ::
  "build \<Rightarrow> db \<Rightarrow> bom_item list \<Rightarrow> required_part list \<Rightarrow> error + required_part list" where
  "required_parts_loop self d [] parts = Inr parts"
| "required_parts_loop self d (item # rest) parts =
     (case getAllocatedQuantity self (bom_sub_part item) d of
        Inl e \<Rightarrow> Inl e
      | Inr allocated \<Rightarrow>
          required_parts_loop self d rest
            (parts @ [\<lparr>rp_part = bom_sub_part item,
                       rp_per_build = bom_quantity item,
                       rp_quantity = bom_quantity item * b_quantity self,
                       rp_allocated = allocated\<rparr>]))"

definition required_parts :: "build \<Rightarrow> db \<Rightarrow> error + required_part list" where
  "required_parts self d = required_parts_loop self d (part_bom_items (b_part self) d) []"

text \<open>
  Modelled from the spec: the property \<^verbatim>\<open>Part.total_stock\<close> belongs to
  \<^verbatim>\<open>part/models.py\<close>, which is not among the sources. The spec describes it as the
  sub-part's total stock quantity across all stock items, allocated or not.
\<close>

definition total_stock :: "part \<Rightarrow> db \<Rightarrow> int" where
  "total_stock p d = sum_list (map si_quantity (StockItem_filter_part p d))"

fun can_build_loop :: "db \<Rightarrow> required_part list \<Rightarrow> bool" where
  "can_build_loop d [] = True"
| "can_build_loop d (item # rest) =
     (if total_stock (rp_part item) d < rp_quantity item then False
      else can_build_loop d rest)"

text \<open>The list of required parts is complete before the first comparison.\<close>

definition can_build :: "build \<Rightarrow> db \<Rightarrow> error + bool" where
  "can_build self d =
     (case required_parts self d of
        Inl e \<Rightarrow> Inl e
      | Inr parts \<Rightarrow> Inr (can_build_loop d parts))"

definition is_active :: "build \<Rightarrow> bool" where
  "is_active self = (b_status self \<in> set [PENDING])"

definition is_complete :: "build \<Rightarrow> bool" where
  "is_complete self = (b_status self = COMPLETE)"

section \<open>Row operations of the store\<close>

text \<open>
  A call returns the exception it raised, if any, the build object \<open>self\<close> as the call
  left it in memory, and the database. \<^verbatim>\<open>@transaction.atomic\<close> restores the database
  when the body raises; it does not restore the object in memory.
\<close>

type_synonym outcome = "error option \<times> build \<times> db"

definition transaction_atomic :: "(db \<Rightarrow> outcome) \<Rightarrow> db \<Rightarrow> outcome" where
  "transaction_atomic body d =
     (case body d of
        (None, self', d') \<Rightarrow> (None, self', d')
      | (Some e, self', d') \<Rightarrow> (Some e, self', d))"

text \<open>The key of a newly inserted row: above every key of the table.\<close>

definition next_id :: "nat list \<Rightarrow> nat" where
  "next_id ids = Suc (fold max ids 0)"

text \<open>\<^verbatim>\<open>item.delete()\<close> removes the row with the item's primary key.\<close>

definition BuildItem_delete :: "build_item \<Rightarrow> db \<Rightarrow> db" where
  "BuildItem_delete item d =
     d\<lparr>build_items := filter (\<lambda>i. bi_id i \<noteq> bi_id item) (build_items d)\<rparr>"

text \<open>
  \<^verbatim>\<open>BuildItem(build=, stock_item=, quantity=).save()\<close> inserts a row. The table refuses,
  with \<open>IntegrityError\<close>, a negative quantity (the column of a
  \<^verbatim>\<open>PositiveIntegerField\<close> carries the check \<open>quantity >= 0\<close>) and a second row for a
  pair (build, stock item) (\<^verbatim>\<open>unique_together\<close>). \<open>save\<close> does not call \<open>clean\<close>.
\<close>

definition BuildItem_save_new :: "nat \<Rightarrow> nat \<Rightarrow> int \<Rightarrow> db \<Rightarrow> error + db" where
  "BuildItem_save_new b s q d =
     (if q < 0 then Inl IntegrityError
      else if filter (\<lambda>i. bi_build i = b \<and> bi_stock_item i = s) (build_items d) \<noteq> []
      then Inl IntegrityError
      else Inr (d\<lparr>build_items := build_items d @
                  [\<lparr>bi_id = next_id (map bi_id (build_items d)), bi_build = b,
                    bi_stock_item = s, bi_quantity = q\<rparr>]\<rparr>))"

text \<open>Saving a stock item that has a primary key updates its row.\<close>

definition StockItem_save :: "stock_item \<Rightarrow> db \<Rightarrow> db" where
  "StockItem_save s d =
     d\<lparr>stock_items := map (\<lambda>r. if si_id r = si_id s then s else r) (stock_items d)\<rparr>"

text \<open>\<^verbatim>\<open>StockItem.objects.create(...)\<close> inserts a row and returns the object.\<close>

definition StockItem_create ::
  "part \<Rightarrow> location \<Rightarrow> int \<Rightarrow> string \<Rightarrow> db \<Rightarrow> stock_item \<times> db" where
  "StockItem_create p loc q batch d =
     (let item = \<lparr>si_id = next_id (map si_id (stock_items d)), si_part = p,
                  si_location = loc, si_quantity = q, si_batch = batch\<rparr>
      in (item, d\<lparr>stock_items := stock_items d @ [item]\<rparr>))"

text \<open>
  \<^verbatim>\<open>self.save()\<close> on a build: \<^verbatim>\<open>creation_date\<close> is declared \<^verbatim>\<open>auto_now=True\<close>, so
  every save sets it to the current date, on the object and in its row.
\<close>

definition Build_save :: "date \<Rightarrow> build \<Rightarrow> db \<Rightarrow> build \<times> db" where
  "Build_save today self d =
     (let self' = self\<lparr>b_creation_date := today\<rparr>
      in (self',
          if filter (\<lambda>b. b_id b = b_id self') (builds d) \<noteq> []
          then d\<lparr>builds := map (\<lambda>b. if b_id b = b_id self' then self' else b) (builds d)\<rparr>
          else d\<lparr>builds := builds d @ [self']\<rparr>))"

section \<open>Cancel and unallocate\<close>

definition cancelBuild_body :: "build \<Rightarrow> user \<Rightarrow> date \<Rightarrow> db \<Rightarrow> outcome" where
  "cancelBuild_body self user today d =
     (let d1 = fold BuildItem_delete (allocated_stock self d) d;
          self1 = self\<lparr>b_completion_date := Some today\<rparr>;
          self2 = self1\<lparr>b_completed_by := Some user\<rparr>;
          self3 = self2\<lparr>b_status := CANCELLED\<rparr>;
          (self4, d2) = Build_save today self3 d1
      in (None, self4, d2))"

definition cancelBuild :: "build \<Rightarrow> user \<Rightarrow> date \<Rightarrow> db \<Rightarrow> outcome" where
  "cancelBuild self user today d = transaction_atomic (cancelBuild_body self user today) d"

definition unallocateStock_body :: "build \<Rightarrow> db \<Rightarrow> outcome" where
  "unallocateStock_body self d =
     (None, self, d\<lparr>build_items := filter (\<lambda>i. bi_build i \<noteq> b_id self) (build_items d)\<rparr>)"

definition unallocateStock :: "build \<Rightarrow> db \<Rightarrow> outcome" where
  "unallocateStock self d = transaction_atomic (unallocateStock_body self) d"

section \<open>Auto-allocation\<close>

record allocation =
  a_stock_item :: stock_item
  a_quantity :: int

text \<open>One pass of the loop body of \<open>getAutoAllocations\<close>, for one BOM line.\<close>

definition getAutoAllocations_item ::
  "build \<Rightarrow> db \<Rightarrow> bom_item \<Rightarrow> allocation list \<Rightarrow> allocation list" where
  "getAutoAllocations_item self d item allocations =
     (let q_required = bom_quantity item * b_quantity self;
          stock = StockItem_filter_part (bom_sub_part item) d
      in if length stock = 1 then
           (let stock_item = stock ! 0;
                items = filter (\<lambda>i. bi_build i = b_id self \<and> bi_stock_item i = si_id stock_item)
                               (build_items d)
            in if length items > 0 then allocations
               else if si_quantity stock_item > 0 then
                 (let q_required' = (if si_quantity stock_item < q_required
                                     then si_quantity stock_item else q_required)
                  in allocations @ [\<lparr>a_stock_item = stock_item, a_quantity = q_required'\<rparr>])
               else allocations)
         else allocations)"

definition getAutoAllocations :: "build \<Rightarrow> db \<Rightarrow> allocation list" where
  "getAutoAllocations self d =
     fold (getAutoAllocations_item self d) (part_bom_items (b_part self) d) []"

fun autoAllocate_loop :: "build \<Rightarrow> allocation list \<Rightarrow> db \<Rightarrow> error option \<times> db" where
  "autoAllocate_loop self [] d = (None, d)"
| "autoAllocate_loop self (item # rest) d =
     (case BuildItem_save_new (b_id self) (si_id (a_stock_item item)) (a_quantity item) d of
        Inl e \<Rightarrow> (Some e, d)
      | Inr d' \<Rightarrow> autoAllocate_loop self rest d')"

definition autoAllocate_body :: "build \<Rightarrow> db \<Rightarrow> outcome" where
  "autoAllocate_body self d =
     (case autoAllocate_loop self (getAutoAllocations self d) d of
        (e, d') \<Rightarrow> (e, self, d'))"

definition autoAllocate :: "build \<Rightarrow> db \<Rightarrow> outcome" where
  "autoAllocate self d = transaction_atomic (autoAllocate_body self) d"

section \<open>Ledger validation\<close>



section \<open>Completion\<close>

text \<open>
  \<^verbatim>\<open>StockItem.take_stock\<close> belongs to \<^verbatim>\<open>stock/models.py\<close>, which is not among the
  sources; \<open>completeBuild\<close> takes it as a parameter: given the stock item, a quantity and
  the acting user, it raises or returns the stock item as it saved it.
\<close>

type_synonym take_stock_fun = "stock_item \<Rightarrow> int \<Rightarrow> user \<Rightarrow> error + stock_item"

text \<open>
  Modelled from the spec: \<^verbatim>\<open>take_stock\<close> as the spec's consume operation, which fails
  with \<open>InsufficientStock\<close> when the quantity exceeds the available quantity and
  otherwise reduces the stock item's quantity by it.
\<close>

definition take_stock :: take_stock_fun where
  "take_stock s q user =
     (if q > si_quantity s then Inl InsufficientStock
      else Inr (s\<lparr>si_quantity := si_quantity s - q\<rparr>))"

fun completeBuild_loop ::
  "take_stock_fun \<Rightarrow> user \<Rightarrow> build_item list \<Rightarrow> db \<Rightarrow> error option \<times> db" where
  "completeBuild_loop ts user [] d = (None, d)"
| "completeBuild_loop ts user (item # rest) d =
     (case StockItem_get (bi_stock_item item) d of
        None \<Rightarrow> (Some DoesNotExist, d)
      | Some s \<Rightarrow>
          (case ts s (bi_quantity item) user of
             Inl e \<Rightarrow> (Some e, d)
           | Inr s' \<Rightarrow>
               completeBuild_loop ts user rest (BuildItem_delete item (StockItem_save s' d))))"

definition completeBuild_body ::
  "take_stock_fun \<Rightarrow> build \<Rightarrow> location \<Rightarrow> user \<Rightarrow> date \<Rightarrow> db \<Rightarrow> outcome" where
  "completeBuild_body ts self location user today d =
     (case completeBuild_loop ts user (allocated_stock self d) d of
        (Some e, d1) \<Rightarrow> (Some e, self, d1)
      | (None, d1) \<Rightarrow>
          (let self1 = self\<lparr>b_completion_date := Some today\<rparr>;
               self2 = self1\<lparr>b_completed_by := Some user\<rparr>;
               (item, d2) = StockItem_create (b_part self2) location (b_quantity self2)
                              (case b_batch self2 of
                                 None \<Rightarrow> []
                               | Some batch \<Rightarrow> (if batch \<noteq> [] then batch else []))
                              d1;
               d3 = StockItem_save item d2;
               self3 = self2\<lparr>b_status := COMPLETE\<rparr>;
               (self4, d4) = Build_save today self3 d3
           in (None, self4, d4)))"

definition completeBuild ::
  "take_stock_fun \<Rightarrow> build \<Rightarrow> location \<Rightarrow> user \<Rightarrow> date \<Rightarrow> db \<Rightarrow> outcome" where
  "completeBuild ts self location user today d =
     transaction_atomic (completeBuild_body ts self location user today) d"

section \<open>Example data\<close>

text \<open>
  Part 1 is built from two units of part 2 and one unit of part 3. Part 2 is held by one
  stock item, part 3 by two. Build 1 makes five units of part 1.
\<close>

definition bom0 :: "bom_item list" where
  "bom0 = [\<lparr>bom_part = 1, bom_sub_part = 2, bom_quantity = 2\<rparr>,
           \<lparr>bom_part = 1, bom_sub_part = 3, bom_quantity = 1\<rparr>]"

definition stock0 :: "stock_item list" where
  "stock0 = [\<lparr>si_id = 1, si_part = 2, si_location = 0, si_quantity = 7, si_batch = []\<rparr>,
             \<lparr>si_id = 2, si_part = 3, si_location = 0, si_quantity = 4, si_batch = []\<rparr>,
             \<lparr>si_id = 3, si_part = 3, si_location = 0, si_quantity = 9, si_batch = []\<rparr>]"

definition build0 :: build where
  "build0 = \<lparr>b_id = 1, b_part = 1, b_quantity = 5, b_status = PENDING, b_batch = None,
             b_creation_date = 100, b_completion_date = None, b_completed_by = None\<rparr>"

definition item0 :: build_item where
  "item0 = \<lparr>bi_id = 1, bi_build = 1, bi_stock_item = 1, bi_quantity = 7\<rparr>"

text \<open>No allocation yet.\<close>

definition db_new :: db where
  "db_new = \<lparr>bom_items = bom0, stock_items = stock0, build_items = [], builds = [build0]\<rparr>"

text \<open>Seven units of stock item 1 are allocated to build 1.\<close>

definition db0 :: db where
  "db0 = \<lparr>bom_items = bom0, stock_items = stock0, build_items = [item0], builds = [build0]\<rparr>"

text \<open>A second record asks stock item 2 for five units; it holds four.\<close>

definition db_short :: db where
  "db_short = \<lparr>bom_items = bom0, stock_items = stock0,
               build_items = [item0, \<lparr>bi_id = 2, bi_build = 1, bi_stock_item = 2, bi_quantity = 5\<rparr>],
               builds = [build0]\<rparr>"


text \<open>
  A database with a second build and the BOM of another part. Part 50 needs sixty units of
  part 2. Build 1 holds four units of stock item 1 and two of stock item 2; build 2 holds
  three units of stock item 1.
\<close>

definition build_other :: build where
  "build_other = \<lparr>b_id = 2, b_part = 50, b_quantity = 1, b_status = PENDING, b_batch = None,
                  b_creation_date = 100, b_completion_date = None, b_completed_by = None\<rparr>"

definition item_other :: build_item where
  "item_other = \<lparr>bi_id = 3, bi_build = 2, bi_stock_item = 1, bi_quantity = 3\<rparr>"

definition db_two :: db where
  "db_two = \<lparr>bom_items = bom0 @ [\<lparr>bom_part = 50, bom_sub_part = 2, bom_quantity = 60\<rparr>],
             stock_items = stock0,
             build_items = [\<lparr>bi_id = 1, bi_build = 1, bi_stock_item = 1, bi_quantity = 4\<rparr>,
                            \<lparr>bi_id = 2, bi_build = 1, bi_stock_item = 2, bi_quantity = 2\<rparr>,
                            item_other],
             builds = [build0, build_other]\<rparr>"



text \<open>
  Build 1 completed on day 200 by user 7, then cancelled on day 300 by user 8.
\<close>

definition completed0 :: outcome where
  "completed0 = completeBuild take_stock build0 0 7 200 db_new"

definition cancelled0 :: outcome where
  "cancelled0 = cancelBuild (fst (snd completed0)) 8 300 (snd (snd completed0))"

section \<open>Auxiliary facts\<close>

subsection \<open>Fresh keys, deletion and saving\<close>

lemma find_key:
  "find (\<lambda>y. f y = k) xs = Some x \<Longrightarrow> x \<in> set xs \<and> f x = k"
  by (induction xs) (auto split: if_splits)


lemma distinct_key_unique:
  "distinct (map f xs) \<Longrightarrow> x \<in> set xs \<Longrightarrow> y \<in> set xs \<Longrightarrow> f x = f y \<Longrightarrow> x = y"
  by (meson distinct_map inj_onD)

lemma fold_max_ge: "a \<le> fold max ids (a::nat) \<and> (\<forall>x\<in>set ids. x \<le> fold max ids a)"
proof (induction ids arbitrary: a)
  case Nil
  show ?case by simp
next
  case (Cons i ids)
  from Cons.IH [of "max i a"] show ?case by auto
qed

lemma next_id_fresh: "next_id ids \<notin> set ids"
proof
  assume "next_id ids \<in> set ids"
  with fold_max_ge [of 0 ids] have "next_id ids \<le> fold max ids 0" by blast
  then show False by (simp add: next_id_def)
qed

lemma fold_BuildItem_delete:
  "fold BuildItem_delete items d
     = d\<lparr>build_items := filter (\<lambda>i. bi_id i \<notin> bi_id ` set items) (build_items d)\<rparr>"
proof (induction items arbitrary: d)
  case Nil
  show ?case by simp
next
  case (Cons item items)
  show ?case
    by (simp add: Cons.IH) (simp add: BuildItem_delete_def conj_commute)
qed

lemma allocated_stock_after_delete:
  "filter (\<lambda>i. bi_build i = b_id self)
     (filter (\<lambda>i. bi_id i \<notin> bi_id ` set (allocated_stock self d)) (build_items d)) = []"
  by (auto simp: allocated_stock_def filter_empty_conv)

lemma Build_save_row:
  assumes "Build_save today self d = (self', d')"
  shows "self' = self\<lparr>b_creation_date := today\<rparr>"
    and "self' \<in> set (builds d')"
    and "bom_items d' = bom_items d"
    and "stock_items d' = stock_items d"
    and "build_items d' = build_items d"
  using assms by (auto simp: Build_save_def Let_def filter_empty_conv split: if_splits)

lemma find_replaced:
  "b_id s = k \<Longrightarrow> \<exists>x\<in>set xs. b_id x = k \<Longrightarrow>
   find (\<lambda>b. b_id b = k) (map (\<lambda>b. if b_id b = k then s else b) xs) = Some s"
  by (induction xs) auto

lemma find_appended:
  "\<forall>x\<in>set xs. b_id x \<noteq> k \<Longrightarrow> b_id s = k \<Longrightarrow> find (\<lambda>b. b_id b = k) (xs @ [s]) = Some s"
  by (induction xs) auto

lemma Build_save_find:
  assumes "Build_save today self d = (self', d')"
  shows "find (\<lambda>b. b_id b = b_id self) (builds d') = Some self'"
proof (cases "filter (\<lambda>b. b_id b = b_id self) (builds d) = []")
  case True
  then have n: "\<forall>x\<in>set (builds d). b_id x \<noteq> b_id self"
    by (simp add: filter_empty_conv)
  from assms True have "self' = self\<lparr>b_creation_date := today\<rparr>"
    and "builds d' = builds d @ [self']"
    by (auto simp: Build_save_def Let_def)
  with find_appended [OF n, of self'] show ?thesis by simp
next
  case False
  then have n: "\<exists>x\<in>set (builds d). b_id x = b_id self"
    by (simp add: filter_empty_conv)
  from assms False have "self' = self\<lparr>b_creation_date := today\<rparr>"
    and "builds d' = map (\<lambda>b. if b_id b = b_id self then self' else b) (builds d)"
    by (auto simp: Build_save_def Let_def)
  with find_replaced [OF _ n, of self'] show ?thesis by simp
qed

lemma filter_deleted_distinct:
  assumes "distinct (map bi_id xs)"
  shows "filter (\<lambda>i. bi_id i \<notin> bi_id ` set (filter P xs)) xs = filter (\<lambda>i. \<not> P i) xs"
proof (rule filter_cong [OF refl])
  fix i
  assume i: "i \<in> set xs"
  show "(bi_id i \<notin> bi_id ` set (filter P xs)) = (\<not> P i)"
  proof
    assume a: "bi_id i \<notin> bi_id ` set (filter P xs)"
    show "\<not> P i"
    proof
      assume "P i"
      with i have "i \<in> set (filter P xs)" by simp
      then have "bi_id i \<in> bi_id ` set (filter P xs)" by (rule imageI)
      with a show False by simp
    qed
  next
    assume n: "\<not> P i"
    show "bi_id i \<notin> bi_id ` set (filter P xs)"
    proof
      assume "bi_id i \<in> bi_id ` set (filter P xs)"
      then obtain j where j: "j \<in> set xs" "P j" "bi_id i = bi_id j" by auto
      from distinct_key_unique [OF assms i j(1) j(3)] j(2) n show False by simp
    qed
  qed
qed

subsection \<open>Quantity accounting and buildability\<close>

lemma sum_list_nonneg_int: "\<forall>x\<in>set xs. (0::int) \<le> x \<Longrightarrow> 0 \<le> sum_list xs"
  by (induction xs) auto

lemma sum_int64_nonneg:
  "0 \<le> acc \<Longrightarrow> \<forall>x\<in>set xs. 0 \<le> x \<Longrightarrow> acc + sum_list xs < 2 ^ 63 \<Longrightarrow>
   sum_int64 acc xs = Inr (acc + sum_list xs)"
proof (induction xs arbitrary: acc)
  case Nil
  then show ?case by simp
next
  case (Cons x xs)
  from Cons.prems(2) have x: "0 \<le> x" and xs: "\<forall>y\<in>set xs. 0 \<le> y" by simp_all
  from sum_list_nonneg_int [OF xs] have s: "0 \<le> sum_list xs" .
  from Cons.prems(1,3) x s have r: "in_int64 (acc + x)"
    by (simp add: in_int64_def)
  from Cons.prems(1) x have a: "0 \<le> acc + x" by simp
  from Cons.prems(3) have b: "(acc + x) + sum_list xs < 2 ^ 63" by (simp add: add.assoc)
  from Cons.IH [OF a xs b] r show ?case by (simp add: add.assoc)
qed

lemma sum_list_filter_le:
  "\<forall>x\<in>set xs. (0::int) \<le> f x \<Longrightarrow> sum_list (map f (filter P xs)) \<le> sum_list (map f xs)"
  by (induction xs) auto

lemma aggregate_Sum_quantity_value:
  assumes "\<forall>i\<in>set rows. 0 \<le> bi_quantity i"
    and "sum_list (map bi_quantity rows) < 2 ^ 63"
  shows "aggregate_Sum_quantity (filter P rows)
           = Inr (if filter P rows = [] then None
                  else Some (sum_list (map bi_quantity (filter P rows))))"
proof -
  have n: "\<forall>x\<in>set (map bi_quantity (filter P rows)). 0 \<le> x"
    using assms(1) by auto
  have "sum_list (map bi_quantity (filter P rows)) \<le> sum_list (map bi_quantity rows)"
    by (rule sum_list_filter_le [OF assms(1)])
  with assms(2) have b: "0 + sum_list (map bi_quantity (filter P rows)) < 2 ^ 63"
    by simp
  from sum_int64_nonneg [OF _ n b] show ?thesis
    by (simp add: aggregate_Sum_quantity_def)
qed

lemma getAllocatedQuantity_sum:
  assumes "\<forall>i\<in>set (build_items d). 0 \<le> bi_quantity i"
    and "sum_list (map bi_quantity (build_items d)) < 2 ^ 63"
  shows "getAllocatedQuantity self p d
           = Inr (sum_list (map bi_quantity (allocated_to_part self p d)))"
  unfolding getAllocatedQuantity_def allocated_to_part_def
    aggregate_Sum_quantity_value [OF assms]
  by simp

lemma stock_item_part_iff:
  assumes "distinct (map si_id rows)"
  shows "(case find (\<lambda>s. si_id s = k) rows of None \<Rightarrow> False | Some s \<Rightarrow> si_part s = p)
           = (\<exists>s\<in>set rows. si_id s = k \<and> si_part s = p)"
proof (cases "find (\<lambda>s. si_id s = k) rows")
  case None
  then have "\<not> (\<exists>s\<in>set rows. si_id s = k \<and> si_part s = p)"
    unfolding find_None_iff by blast
  then show ?thesis unfolding None by simp
next
  case (Some s)
  from find_key [OF Some] have m: "s \<in> set rows" and k: "si_id s = k" by simp_all
  have u: "s' = s" if "s' \<in> set rows" "si_id s' = k" for s'
    using distinct_key_unique [OF assms that(1) m] that(2) k by simp
  have "(si_part s = p) = (\<exists>s\<in>set rows. si_id s = k \<and> si_part s = p)"
  proof
    assume "si_part s = p"
    with m k show "\<exists>s\<in>set rows. si_id s = k \<and> si_part s = p" by blast
  next
    assume "\<exists>s\<in>set rows. si_id s = k \<and> si_part s = p"
    then obtain s' where "s' \<in> set rows" "si_id s' = k" "si_part s' = p" by blast
    with u [of s'] show "si_part s = p" by simp
  qed
  then show ?thesis unfolding Some by simp
qed

lemma allocated_to_part_rows:
  assumes "distinct (map si_id (stock_items d))"
  shows "allocated_to_part self p d
           = filter (\<lambda>i. bi_build i = b_id self \<and>
                       (\<exists>s\<in>set (stock_items d). si_id s = bi_stock_item i \<and> si_part s = p))
                    (build_items d)"
  by (simp add: allocated_to_part_def StockItem_get_def stock_item_part_iff [OF assms])

lemma required_parts_loop_value:
  assumes "\<And>p. getAllocatedQuantity self p d = Inr (A p)"
  shows "required_parts_loop self d items parts
           = Inr (parts @ map (\<lambda>item. \<lparr>rp_part = bom_sub_part item,
                                       rp_per_build = bom_quantity item,
                                       rp_quantity = bom_quantity item * b_quantity self,
                                       rp_allocated = A (bom_sub_part item)\<rparr>) items)"
  by (induction items arbitrary: parts) (simp_all add: assms)

lemma can_build_loop_all:
  "can_build_loop d rs = (\<forall>r\<in>set rs. rp_quantity r \<le> total_stock (rp_part r) d)"
  by (induction rs) auto

subsection \<open>Cancellation\<close>

lemma cancelBuild_result:
  "\<exists>d'. cancelBuild self user today d
            = (None,
               self\<lparr>b_completion_date := Some today, b_completed_by := Some user,
                     b_status := CANCELLED, b_creation_date := today\<rparr>,
               d') \<and>
         self\<lparr>b_completion_date := Some today, b_completed_by := Some user,
               b_status := CANCELLED, b_creation_date := today\<rparr> \<in> set (builds d') \<and>
         build_items d'
           = filter (\<lambda>i. bi_id i \<notin> bi_id ` set (allocated_stock self d)) (build_items d) \<and>
         stock_items d' = stock_items d \<and> bom_items d' = bom_items d \<and>
         find (\<lambda>b. b_id b = b_id self) (builds d')
           = Some (self\<lparr>b_completion_date := Some today, b_completed_by := Some user,
                         b_status := CANCELLED, b_creation_date := today\<rparr>)"
proof -
  obtain self' d' where s: "Build_save today
      (self\<lparr>b_completion_date := Some today, b_completed_by := Some user, b_status := CANCELLED\<rparr>)
      (fold BuildItem_delete (allocated_stock self d) d) = (self', d')"
    by (cases "Build_save today
      (self\<lparr>b_completion_date := Some today, b_completed_by := Some user, b_status := CANCELLED\<rparr>)
      (fold BuildItem_delete (allocated_stock self d) d)")
  have c: "cancelBuild self user today d = (None, self', d')"
    by (simp add: cancelBuild_def transaction_atomic_def cancelBuild_body_def s)
  note r = Build_save_row [OF s]
  have e: "self' = self\<lparr>b_completion_date := Some today, b_completed_by := Some user,
                        b_status := CANCELLED, b_creation_date := today\<rparr>"
    using r(1) by simp
  have b: "build_items d'
      = filter (\<lambda>i. bi_id i \<notin> bi_id ` set (allocated_stock self d)) (build_items d)"
    "stock_items d' = stock_items d" "bom_items d' = bom_items d"
    using r(3-5) by (simp_all add: fold_BuildItem_delete)
  have f: "find (\<lambda>b. b_id b = b_id self) (builds d') = Some self'"
    using Build_save_find [OF s] by simp
  from c r(2) b f show ?thesis unfolding e by blast
qed

subsection \<open>Completion\<close>

lemma StockItem_save_created:
  "StockItem_create p loc q batch d = (item, d') \<Longrightarrow> StockItem_save item d' = d'"
proof -
  assume a: "StockItem_create p loc q batch d = (item, d')"
  have n: "\<forall>r\<in>set (stock_items d). si_id r \<noteq> next_id (map si_id (stock_items d))"
    using next_id_fresh [of "map si_id (stock_items d)"] by (metis imageI list.set_map)
  have "map (\<lambda>r. if si_id r = next_id (map si_id (stock_items d)) then x else r) (stock_items d)
          = stock_items d" for x
    using n by (simp add: map_idI)
  with a show ?thesis
    by (auto simp: StockItem_create_def StockItem_save_def Let_def)
qed

lemma completeBuild_success:
  assumes "completeBuild_loop ts user (allocated_stock self d) d = (None, d1)"
  shows "\<exists>self' new d'.
           completeBuild ts self location user today d = (None, self', d') \<and>
           stock_items d' = stock_items d1 @ [new] \<and>
           si_part new = b_part self \<and> si_quantity new = b_quantity self \<and>
           si_location new = location \<and>
           build_items d' = build_items d1 \<and> bom_items d' = bom_items d1 \<and>
           self' = self\<lparr>b_completion_date := Some today, b_completed_by := Some user,
                        b_status := COMPLETE, b_creation_date := today\<rparr> \<and>
           self' \<in> set (builds d') \<and>
           find (\<lambda>b. b_id b = b_id self) (builds d') = Some self'"
proof -
  define batch where "batch = (case b_batch self of None \<Rightarrow> []
                               | Some batch \<Rightarrow> (if batch \<noteq> [] then batch else []))"
  obtain new d2 where c: "StockItem_create (b_part self) location (b_quantity self) batch d1 = (new, d2)"
    by (cases "StockItem_create (b_part self) location (b_quantity self) batch d1")
  have s: "StockItem_save new d2 = d2" by (rule StockItem_save_created [OF c])
  obtain self' d' where b: "Build_save today
      (self\<lparr>b_completion_date := Some today, b_completed_by := Some user, b_status := COMPLETE\<rparr>)
      d2 = (self', d')"
    by (cases "Build_save today
      (self\<lparr>b_completion_date := Some today, b_completed_by := Some user, b_status := COMPLETE\<rparr>) d2")
  have r: "completeBuild ts self location user today d = (None, self', d')"
    using assms c s b
    by (simp add: completeBuild_def transaction_atomic_def completeBuild_body_def batch_def)
  note k = Build_save_row [OF b]
  have n: "stock_items d2 = stock_items d1 @ [new]" "si_part new = b_part self"
    "si_quantity new = b_quantity self" "si_location new = location"
    "build_items d2 = build_items d1" "bom_items d2 = bom_items d1"
    using c by (auto simp: StockItem_create_def Let_def)
  have e: "self' = self\<lparr>b_completion_date := Some today, b_completed_by := Some user,
                        b_status := COMPLETE, b_creation_date := today\<rparr>"
    using k(1) by simp
  have f: "find (\<lambda>b. b_id b = b_id self) (builds d') = Some self'"
    using Build_save_find [OF b] by simp
  from r n k(2-5) f show ?thesis
    unfolding e by (intro exI [of _ "self\<lparr>b_completion_date := Some today,
        b_completed_by := Some user, b_status := COMPLETE, b_creation_date := today\<rparr>"]
        exI [of _ new] exI [of _ d']) simp
qed

lemma completeBuild_failure:
  assumes "completeBuild_loop ts user (allocated_stock self d) d = (Some e, d1)"
  shows "completeBuild ts self location user today d = (Some e, self, d)"
  using assms by (simp add: completeBuild_def transaction_atomic_def completeBuild_body_def)

lemma completeBuild_succeeded:
  assumes "completeBuild ts self location user today d = (None, self', d')"
  shows "\<exists>d1. completeBuild_loop ts user (allocated_stock self d) d = (None, d1)"
proof (cases "completeBuild_loop ts user (allocated_stock self d) d")
  case (Pair e d1)
  show ?thesis
  proof (cases e)
    case None
    with Pair show ?thesis by simp
  next
    case (Some x)
    with Pair have "completeBuild ts self location user today d = (Some x, self, d)"
      by (simp add: completeBuild_failure)
    with assms show ?thesis by simp
  qed
qed

lemma StockItem_save_taken:
  assumes "distinct (map si_id (stock_items d))"
    and "StockItem_get pk d = Some s"
  shows "stock_items (StockItem_save (s\<lparr>si_quantity := si_quantity s - q\<rparr>) d)
           = map (\<lambda>r. if si_id r = pk then r\<lparr>si_quantity := si_quantity r - q\<rparr> else r)
                 (stock_items d)"
proof -
  from find_key [OF assms(2) [unfolded StockItem_get_def]]
  have m: "s \<in> set (stock_items d)" and k: "si_id s = pk" by simp_all
  have "r = s" if "r \<in> set (stock_items d)" "si_id r = pk" for r
    using distinct_key_unique [OF assms(1) that(1) m] that(2) k by simp
  then show ?thesis
    by (auto simp: StockItem_save_def k)
qed

lemma sum_quantity_taken:
  "distinct (map si_id rows) \<Longrightarrow> s \<in> set rows \<Longrightarrow>
   sum_list (map si_quantity
      (map (\<lambda>r. if si_id r = si_id s then r\<lparr>si_quantity := si_quantity r - q\<rparr> else r) rows))
     = sum_list (map si_quantity rows) - q"
proof (induction rows)
  case Nil
  then show ?case by simp
next
  case (Cons r rows)
  show ?case
  proof (cases "r = s")
    case True
    with Cons.prems(1) have "\<forall>x\<in>set rows. si_id x \<noteq> si_id s"
      by (metis distinct.simps(2) imageI list.set_map list.simps(9))
    then have "map (\<lambda>r. if si_id r = si_id s then r\<lparr>si_quantity := si_quantity r - q\<rparr> else r) rows
                 = rows"
      by (simp add: map_idI)
    with True show ?thesis by simp
  next
    case False
    with Cons.prems have m: "s \<in> set rows" and d: "distinct (map si_id rows)" by simp_all
    from m Cons.prems(1) have "si_id r \<noteq> si_id s"
      by (metis distinct.simps(2) imageI list.set_map list.simps(9))
    with Cons.IH [OF d m] show ?thesis by simp
  qed
qed

lemma completeBuild_loop_consumes:
  assumes "distinct (map si_id (stock_items d))"
    and "completeBuild_loop take_stock user items d = (None, d1)"
  shows "stock_items d1
           = map (\<lambda>r. r\<lparr>si_quantity := si_quantity r -
                     sum_list (map bi_quantity (filter (\<lambda>i. bi_stock_item i = si_id r) items))\<rparr>)
                 (stock_items d) \<and>
         build_items d1 = filter (\<lambda>i. bi_id i \<notin> bi_id ` set items) (build_items d) \<and>
         sum_list (map si_quantity (stock_items d1))
           = sum_list (map si_quantity (stock_items d)) - sum_list (map bi_quantity items)"
  using assms
proof (induction items arbitrary: d)
  case Nil
  then show ?case by simp
next
  case (Cons item items)
  from Cons.prems(2) obtain s where g: "StockItem_get (bi_stock_item item) d = Some s"
    by (auto split: option.splits)
  with Cons.prems(2) have t: "take_stock s (bi_quantity item) user
      = Inr (s\<lparr>si_quantity := si_quantity s - bi_quantity item\<rparr>)"
    by (auto simp: take_stock_def split: if_splits)
  define d2 where "d2 = BuildItem_delete item
      (StockItem_save (s\<lparr>si_quantity := si_quantity s - bi_quantity item\<rparr>) d)"
  from Cons.prems(2) g t have l: "completeBuild_loop take_stock user items d2 = (None, d1)"
    by (simp add: d2_def)
  have st: "stock_items d2
      = map (\<lambda>r. if si_id r = bi_stock_item item
                  then r\<lparr>si_quantity := si_quantity r - bi_quantity item\<rparr> else r)
            (stock_items d)"
    using StockItem_save_taken [OF Cons.prems(1) g]
    by (simp add: d2_def BuildItem_delete_def)
  have bi: "build_items d2 = filter (\<lambda>i. bi_id i \<noteq> bi_id item) (build_items d)"
    by (simp add: d2_def BuildItem_delete_def StockItem_save_def)
  have ids: "map si_id (stock_items d2) = map si_id (stock_items d)"
    by (simp add: st o_def if_distrib cong: if_cong)
  then have dist: "distinct (map si_id (stock_items d2))"
    using Cons.prems(1) by simp
  note ih0 = Cons.IH [OF dist l]
  note ih = conjunct1 [OF ih0] conjunct1 [OF conjunct2 [OF ih0]] conjunct2 [OF conjunct2 [OF ih0]]
  from find_key [OF g [unfolded StockItem_get_def]]
  have m: "s \<in> set (stock_items d)" and k: "si_id s = bi_stock_item item" by simp_all
  have total: "sum_list (map si_quantity (stock_items d2))
      = sum_list (map si_quantity (stock_items d)) - bi_quantity item"
    using sum_quantity_taken [OF Cons.prems(1) m, of "bi_quantity item"]
    by (simp add: st k)
  have a: "stock_items d1
           = map (\<lambda>r. r\<lparr>si_quantity := si_quantity r -
                     sum_list (map bi_quantity
                       (filter (\<lambda>i. bi_stock_item i = si_id r) (item # items)))\<rparr>)
                 (stock_items d)"
    unfolding ih(1) st by (simp add: o_def)
  have b: "build_items d1
      = filter (\<lambda>i. bi_id i \<notin> bi_id ` set (item # items)) (build_items d)"
    unfolding ih(2) bi by (simp add: conj_commute)
  have c: "sum_list (map si_quantity (stock_items d1))
           = sum_list (map si_quantity (stock_items d)) - sum_list (map bi_quantity (item # items))"
    unfolding ih(3) total by simp
  from a b c show ?case by blast
qed

subsection \<open>Auto-allocation\<close>

lemma getAutoAllocations_item_append:
  "getAutoAllocations_item self d item acc = acc @ getAutoAllocations_item self d item []"
  by (simp add: getAutoAllocations_item_def Let_def)

lemma fold_getAutoAllocations_item:
  "fold (getAutoAllocations_item self d) items acc
     = acc @ concat (map (\<lambda>item. getAutoAllocations_item self d item []) items)"
proof (induction items arbitrary: acc)
  case Nil
  show ?case by simp
next
  case (Cons item items)
  show ?case
    by (simp add: Cons.IH [of "getAutoAllocations_item self d item acc"])
       (subst getAutoAllocations_item_append, simp)
qed

lemma getAutoAllocations_concat:
  "getAutoAllocations self d
     = concat (map (\<lambda>item. getAutoAllocations_item self d item [])
                   (part_bom_items (b_part self) d))"
  by (simp add: getAutoAllocations_def fold_getAutoAllocations_item)

lemma getAutoAllocations_item_cases:
  assumes "a \<in> set (getAutoAllocations_item self d item [])"
  shows "StockItem_filter_part (bom_sub_part item) d = [a_stock_item a] \<and>
         0 < si_quantity (a_stock_item a) \<and>
         filter (\<lambda>i. bi_build i = b_id self \<and> bi_stock_item i = si_id (a_stock_item a))
                (build_items d) = [] \<and>
         a_quantity a = min (bom_quantity item * b_quantity self) (si_quantity (a_stock_item a))"
proof -
  from assms have l: "length (StockItem_filter_part (bom_sub_part item) d) = 1"
    by (auto simp: getAutoAllocations_item_def Let_def split: if_splits)
  then obtain s where s: "StockItem_filter_part (bom_sub_part item) d = [s]"
    by (cases "StockItem_filter_part (bom_sub_part item) d") auto
  from assms show ?thesis
    by (auto simp: getAutoAllocations_item_def Let_def s min_def split: if_splits)
qed

lemma getAutoAllocations_item_proposes:
  assumes "StockItem_filter_part (bom_sub_part item) d = [s]" and "0 < si_quantity s"
    and "filter (\<lambda>i. bi_build i = b_id self \<and> bi_stock_item i = si_id s) (build_items d) = []"
  shows "getAutoAllocations_item self d item acc
           = acc @ [\<lparr>a_stock_item = s,
                      a_quantity = min (bom_quantity item * b_quantity self) (si_quantity s)\<rparr>]"
  using assms by (simp add: getAutoAllocations_item_def Let_def min_def)

lemma getAutoAllocations_member:
  assumes "item \<in> set (part_bom_items (b_part self) d)"
    and "StockItem_filter_part (bom_sub_part item) d = [s]" and "0 < si_quantity s"
    and "filter (\<lambda>i. bi_build i = b_id self \<and> bi_stock_item i = si_id s) (build_items d) = []"
  shows "\<lparr>a_stock_item = s,
          a_quantity = min (bom_quantity item * b_quantity self) (si_quantity s)\<rparr>
           \<in> set (getAutoAllocations self d)"
proof -
  have "\<lparr>a_stock_item = s,
         a_quantity = min (bom_quantity item * b_quantity self) (si_quantity s)\<rparr>
          \<in> set (getAutoAllocations_item self d item [])"
    by (simp add: getAutoAllocations_item_proposes [OF assms(2-4), of "[]"])
  with assms(1) show ?thesis
    unfolding getAutoAllocations_concat set_concat set_map by blast
qed

lemma getAutoAllocations_capped:
  assumes "a \<in> set (getAutoAllocations self d)"
  shows "a_stock_item a \<in> set (stock_items d) \<and> a_quantity a \<le> si_quantity (a_stock_item a)"
proof -
  from assms obtain line where "a \<in> set (getAutoAllocations_item self d line [])"
    by (auto simp: getAutoAllocations_concat)
  from getAutoAllocations_item_cases [OF this]
  have f: "StockItem_filter_part (bom_sub_part line) d = [a_stock_item a]"
    and q: "a_quantity a = min (bom_quantity line * b_quantity self) (si_quantity (a_stock_item a))"
    by simp_all
  have "a_stock_item a \<in> set (StockItem_filter_part (bom_sub_part line) d)"
    by (simp add: f)
  then have "a_stock_item a \<in> set (stock_items d)"
    by (simp add: StockItem_filter_part_def)
  with q show ?thesis by simp
qed

lemma autoAllocate_loop_success:
  assumes "autoAllocate_loop self as d = (None, d')"
  shows "bom_items d' = bom_items d \<and> stock_items d' = stock_items d \<and>
         builds d' = builds d \<and>
         (\<exists>news. build_items d' = build_items d @ news \<and>
            map (\<lambda>r. (bi_build r, bi_stock_item r, bi_quantity r)) news
              = map (\<lambda>a. (b_id self, si_id (a_stock_item a), a_quantity a)) as)"
  using assms
proof (induction as arbitrary: d)
  case Nil
  then show ?case by simp
next
  case (Cons a as)
  from Cons.prems obtain d1 where
    s: "BuildItem_save_new (b_id self) (si_id (a_stock_item a)) (a_quantity a) d = Inr d1"
    and l: "autoAllocate_loop self as d1 = (None, d')"
    by (auto split: sum.splits)
  define r where "r = \<lparr>bi_id = next_id (map bi_id (build_items d)), bi_build = b_id self,
                       bi_stock_item = si_id (a_stock_item a), bi_quantity = a_quantity a\<rparr>"
  from s have d1: "d1 = d\<lparr>build_items := build_items d @ [r]\<rparr>"
    by (simp add: BuildItem_save_new_def r_def split: if_splits)
  from Cons.IH [OF l] obtain news where
    k: "bom_items d' = bom_items d1" "stock_items d' = stock_items d1" "builds d' = builds d1"
       "build_items d' = build_items d1 @ news"
       "map (\<lambda>r. (bi_build r, bi_stock_item r, bi_quantity r)) news
              = map (\<lambda>a. (b_id self, si_id (a_stock_item a), a_quantity a)) as"
    by blast
  have "build_items d' = build_items d @ (r # news)"
    using k(4) by (simp add: d1)
  moreover have "map (\<lambda>r. (bi_build r, bi_stock_item r, bi_quantity r)) (r # news)
              = map (\<lambda>a. (b_id self, si_id (a_stock_item a), a_quantity a)) (a # as)"
    using k(5) by (simp add: r_def)
  ultimately show ?case using k(1-3) unfolding d1 by (intro conjI exI [of _ "r # news"]) simp_all
qed

lemma autoAllocate_outcome:
  "(\<exists>e d1. autoAllocate_loop self (getAutoAllocations self d) d = (Some e, d1) \<and>
            autoAllocate self d = (Some e, self, d)) \<or>
   (\<exists>d'. autoAllocate_loop self (getAutoAllocations self d) d = (None, d') \<and>
          autoAllocate self d = (None, self, d'))"
proof (cases "autoAllocate_loop self (getAutoAllocations self d) d")
  case (Pair e d1)
  then show ?thesis
    by (cases e) (simp_all add: autoAllocate_def transaction_atomic_def autoAllocate_body_def)
qed

lemma proposal_persisted:
  assumes "autoAllocate_loop self (getAutoAllocations self d) d = (None, d')"
    and "a \<in> set (getAutoAllocations self d)"
  shows "filter (\<lambda>i. bi_build i = b_id self \<and> bi_stock_item i = si_id (a_stock_item a))
                (build_items d') \<noteq> []"
proof -
  from autoAllocate_loop_success [OF assms(1)] obtain news where
    n: "build_items d' = build_items d @ news"
       "map (\<lambda>r. (bi_build r, bi_stock_item r, bi_quantity r)) news
              = map (\<lambda>a. (b_id self, si_id (a_stock_item a), a_quantity a))
                    (getAutoAllocations self d)"
    by blast
  from assms(2) have "(b_id self, si_id (a_stock_item a), a_quantity a)
        \<in> set (map (\<lambda>r. (bi_build r, bi_stock_item r, bi_quantity r)) news)"
    unfolding n(2) by force
  then obtain r where "r \<in> set news" "bi_build r = b_id self"
    "bi_stock_item r = si_id (a_stock_item a)"
    by auto
  then show ?thesis
    by (auto simp: n(1) filter_empty_conv)
qed

lemma no_second_proposal:
  assumes l: "autoAllocate_loop self (getAutoAllocations self d) d = (None, d')"
    and i: "item \<in> set (part_bom_items (b_part self) d')"
  shows "getAutoAllocations_item self d' item [] = []"
proof (rule ccontr)
  assume "getAutoAllocations_item self d' item [] \<noteq> []"
  then obtain a where a: "a \<in> set (getAutoAllocations_item self d' item [])"
    by (cases "getAutoAllocations_item self d' item []") auto
  note k = autoAllocate_loop_success [OF l]
  from k obtain news where n: "build_items d' = build_items d @ news" by blast
  from k have same: "StockItem_filter_part p d' = StockItem_filter_part p d"
    "part_bom_items p d' = part_bom_items p d" for p
    by (simp_all add: StockItem_filter_part_def part_bom_items_def)
  from getAutoAllocations_item_cases [OF a]
  have c: "StockItem_filter_part (bom_sub_part item) d = [a_stock_item a]"
    "0 < si_quantity (a_stock_item a)"
    "filter (\<lambda>i. bi_build i = b_id self \<and> bi_stock_item i = si_id (a_stock_item a))
            (build_items d') = []"
    by (simp_all add: same)
  from c(3) have c4: "filter (\<lambda>i. bi_build i = b_id self \<and> bi_stock_item i = si_id (a_stock_item a))
            (build_items d) = []"
    by (simp add: n)
  from i have i': "item \<in> set (part_bom_items (b_part self) d)" by (simp add: same)
  from getAutoAllocations_member [OF i' c(1,2) c4]
  obtain a0 where "a0 \<in> set (getAutoAllocations self d)" "a_stock_item a0 = a_stock_item a"
    by force
  with proposal_persisted [OF l, of a0] c(3) show False by simp
qed



section \<open>Results\<close>

subsection \<open>Completion\<close>

text \<open>
  C1. When the stock-consuming loop of \<open>completeBuild\<close> raises at one of the build's
  allocation records, the call returns that error and nothing has changed: the database
  is the one the call started from (no allocation record deleted, no stock item created,
  no quantity changed), and the build object is untouched, so its completion date,
  completed-by and status are what they were. This holds for every behaviour of
  \<open>take_stock\<close>.
\<close>

theorem completeBuild_aborts_untouched:
  assumes "fst (completeBuild_loop ts user (allocated_stock self d) d) = Some e"
  shows "completeBuild ts self location user today d = (Some e, self, d)"
proof -
  obtain d1 where "completeBuild_loop ts user (allocated_stock self d) d = (Some e, d1)"
    using assms by (cases "completeBuild_loop ts user (allocated_stock self d) d") simp
  then show ?thesis by (rule completeBuild_failure)
qed

text \<open>
  In \<open>db_short\<close> the first record is consumed and deleted inside the transaction before
  the second raises; the call still returns the database it was given.
\<close>

theorem completeBuild_aborts_untouched_witness:
  "fst (completeBuild_loop take_stock 7 (allocated_stock build0 db_short) db_short)
     = Some InsufficientStock \<and>
   stock_items (snd (completeBuild_loop take_stock 7 (allocated_stock build0 db_short) db_short))
     \<noteq> stock_items db_short \<and>
   completeBuild take_stock build0 0 7 200 db_short = (Some InsufficientStock, build0, db_short)"
proof -
  have l: "completeBuild_loop take_stock 7 (allocated_stock build0 db_short) db_short
     = (Some InsufficientStock,
        db_short\<lparr>stock_items :=
                    [\<lparr>si_id = 1, si_part = 2, si_location = 0, si_quantity = 0, si_batch = []\<rparr>,
                     \<lparr>si_id = 2, si_part = 3, si_location = 0, si_quantity = 4, si_batch = []\<rparr>,
                     \<lparr>si_id = 3, si_part = 3, si_location = 0, si_quantity = 9, si_batch = []\<rparr>],
                  build_items :=
                    [\<lparr>bi_id = 2, bi_build = 1, bi_stock_item = 2, bi_quantity = 5\<rparr>]\<rparr>)"
    by (simp add: allocated_stock_def db_short_def build0_def item0_def stock0_def
        StockItem_get_def take_stock_def StockItem_save_def BuildItem_delete_def)
  have h: "fst (completeBuild_loop take_stock 7 (allocated_stock build0 db_short) db_short)
     = Some InsufficientStock"
    by (simp add: l)
  have n: "stock_items (snd (completeBuild_loop take_stock 7 (allocated_stock build0 db_short) db_short))
     \<noteq> stock_items db_short"
    by (simp add: l) (simp add: db_short_def stock0_def)
  from h n completeBuild_aborts_untouched [OF h] show ?thesis by blast
qed

text \<open>
  C2. When \<open>completeBuild\<close>, with \<open>take_stock\<close> as the spec describes it, succeeds on a
  database whose stock items have distinct primary keys: every stock item's quantity is
  reduced by exactly the sum of the quantities of the rows of the allocation table that
  belong to the build and reference it, so that the total taken from stock is the total
  the build had allocated; exactly one stock item is appended, for the build's part and
  with the build's quantity; no row of the allocation table belongs to the build any more,
  and when the rows have distinct primary keys the rows of other builds are all still
  there; completion date and completed-by are set, the status is \<open>COMPLETE\<close>, and the
  stored row of the build is the returned object.
\<close>

theorem completeBuild_consumes_allocations:
  assumes "distinct (map si_id (stock_items d))"
    and "completeBuild take_stock self location user today d = (None, self', d')"
  shows "\<exists>new.
           stock_items d'
             = map (\<lambda>r. r\<lparr>si_quantity := si_quantity r -
                       sum_list (map bi_quantity
                         (filter (\<lambda>i. bi_build i = b_id self \<and> bi_stock_item i = si_id r)
                                 (build_items d)))\<rparr>)
                   (stock_items d) @ [new] \<and>
           si_part new = b_part self \<and> si_quantity new = b_quantity self \<and>
           sum_list (map si_quantity (stock_items d))
             - sum_list (map si_quantity (butlast (stock_items d')))
             = sum_list (map bi_quantity
                 (filter (\<lambda>i. bi_build i = b_id self) (build_items d))) \<and>
           filter (\<lambda>i. bi_build i = b_id self) (build_items d') = [] \<and>
           (distinct (map bi_id (build_items d)) \<longrightarrow>
              build_items d' = filter (\<lambda>i. bi_build i \<noteq> b_id self) (build_items d)) \<and>
           b_completion_date self' = Some today \<and>
           b_completed_by self' = Some user \<and>
           b_status self' = COMPLETE \<and>
           find (\<lambda>b. b_id b = b_id self) (builds d') = Some self'"
proof -
  have as: "allocated_stock self d = filter (\<lambda>i. bi_build i = b_id self) (build_items d)"
    by (simp add: allocated_stock_def)
  from completeBuild_succeeded [OF assms(2)] obtain d1 where
    l: "completeBuild_loop take_stock user (allocated_stock self d) d = (None, d1)"
    by blast
  note c0 = completeBuild_loop_consumes [OF assms(1) l]
  note c = conjunct1 [OF c0] conjunct1 [OF conjunct2 [OF c0]] conjunct2 [OF conjunct2 [OF c0]]
  from completeBuild_success [OF l, of location today] assms(2) obtain new where
    n: "stock_items d' = stock_items d1 @ [new]" "si_part new = b_part self"
       "si_quantity new = b_quantity self" "build_items d' = build_items d1"
       "self' = self\<lparr>b_completion_date := Some today, b_completed_by := Some user,
                        b_status := COMPLETE, b_creation_date := today\<rparr>"
       "find (\<lambda>b. b_id b = b_id self) (builds d') = Some self'"
    by auto
  have a: "stock_items d'
             = map (\<lambda>r. r\<lparr>si_quantity := si_quantity r -
                       sum_list (map bi_quantity
                         (filter (\<lambda>i. bi_build i = b_id self \<and> bi_stock_item i = si_id r)
                                 (build_items d)))\<rparr>)
                   (stock_items d) @ [new]"
    unfolding n(1) c(1) as filter_filter by simp
  have bl: "butlast (stock_items d') = stock_items d1" by (simp add: n(1))
  have t: "sum_list (map si_quantity (stock_items d))
             - sum_list (map si_quantity (butlast (stock_items d')))
             = sum_list (map bi_quantity
                 (filter (\<lambda>i. bi_build i = b_id self) (build_items d)))"
    unfolding bl c(3) as by simp
  have b: "build_items d'
      = filter (\<lambda>i. bi_id i \<notin> bi_id ` set (filter (\<lambda>i. bi_build i = b_id self) (build_items d)))
               (build_items d)"
    unfolding n(4) c(2) as by simp
  have e: "filter (\<lambda>i. bi_build i = b_id self) (build_items d') = []"
    unfolding b using allocated_stock_after_delete [of self d] unfolding as .
  have k: "build_items d' = filter (\<lambda>i. bi_build i \<noteq> b_id self) (build_items d)"
    if "distinct (map bi_id (build_items d))"
    unfolding b filter_deleted_distinct [OF that] by simp
  have s: "b_completion_date self' = Some today" "b_completed_by self' = Some user"
    "b_status self' = COMPLETE"
    by (simp_all add: n(5))
  from a n(2,3) t e k s n(6) show ?thesis by blast
qed

text \<open>
  In \<open>db_two\<close> build 1 holds four units of stock item 1 and two of stock item 2; the three
  units build 2 holds of stock item 1 are neither consumed nor released.
\<close>

theorem completeBuild_consumes_allocations_witness:
  "distinct (map si_id (stock_items db_two)) \<and>
   distinct (map bi_id (build_items db_two)) \<and>
   fst (completeBuild take_stock build0 0 7 200 db_two) = None \<and>
   map si_quantity (stock_items (snd (snd (completeBuild take_stock build0 0 7 200 db_two))))
     = [3, 2, 9, 5] \<and>
   map si_part (stock_items (snd (snd (completeBuild take_stock build0 0 7 200 db_two))))
     = [2, 3, 3, 1] \<and>
   build_items (snd (snd (completeBuild take_stock build0 0 7 200 db_two))) = [item_other] \<and>
   b_status (fst (snd (completeBuild take_stock build0 0 7 200 db_two))) = COMPLETE \<and>
   find (\<lambda>b. b_id b = 1) (builds (snd (snd (completeBuild take_stock build0 0 7 200 db_two))))
     = Some (fst (snd (completeBuild take_stock build0 0 7 200 db_two)))"
proof -
  define out where "out = completeBuild take_stock build0 0 7 200 db_two"
  have h1: "distinct (map si_id (stock_items db_two))"
    by code_simp
  have h3: "distinct (map bi_id (build_items db_two))"
    by code_simp
  have e: "fst out = None"
    unfolding out_def by code_simp
  have h2: "completeBuild take_stock build0 0 7 200 db_two = (None, fst (snd out), snd (snd out))"
    unfolding out_def [symmetric] by (metis e prod.collapse)
  have i: "b_id build0 = 1" "b_part build0 = 1" "b_quantity build0 = 5"
    by (simp_all add: build0_def)
  have q: "map (\<lambda>r. si_quantity r -
                  sum_list (map bi_quantity
                    (filter (\<lambda>i. bi_build i = b_id build0 \<and> bi_stock_item i = si_id r)
                            (build_items db_two))))
               (stock_items db_two) = [3, 2, 9]"
    by code_simp
  have p: "map si_part (stock_items db_two) = [2, 3, 3]"
    by code_simp
  have o: "filter (\<lambda>i. bi_build i \<noteq> b_id build0) (build_items db_two) = [item_other]"
    by code_simp
  from completeBuild_consumes_allocations [OF h1 h2] h3 obtain new where
    n: "stock_items (snd (snd out))
             = map (\<lambda>r. r\<lparr>si_quantity := si_quantity r -
                       sum_list (map bi_quantity
                         (filter (\<lambda>i. bi_build i = b_id build0 \<and> bi_stock_item i = si_id r)
                                 (build_items db_two)))\<rparr>)
                   (stock_items db_two) @ [new]"
       "si_part new = b_part build0" "si_quantity new = b_quantity build0"
       "build_items (snd (snd out))
          = filter (\<lambda>i. bi_build i \<noteq> b_id build0) (build_items db_two)"
       "b_status (fst (snd out)) = COMPLETE"
       "find (\<lambda>b. b_id b = b_id build0) (builds (snd (snd out))) = Some (fst (snd out))"
    by blast
  have a: "map si_quantity (stock_items (snd (snd out))) = [3, 2, 9, 5]"
    unfolding n(1) using q by (simp add: o_def n(3) i)
  have b: "map si_part (stock_items (snd (snd out))) = [2, 3, 3, 1]"
    unfolding n(1) using p by (simp add: o_def n(2) i)
  from h1 h3 e a b n(4) [unfolded o] n(5) n(6) [unfolded i] show ?thesis
    unfolding out_def by (intro conjI)
qed

text \<open>
  C10. \<open>completeBuild\<close> asks for no allocation: on a build without allocation records it
  succeeds whatever \<open>take_stock\<close> does, leaves the existing stock items and the
  allocation table as they were, appends one stock item for the build's part with the
  build's quantity, sets completion date and completed-by, and sets the status to
  \<open>COMPLETE\<close>.
\<close>

theorem completeBuild_without_allocations:
  assumes "allocated_stock self d = []"
  shows "\<exists>self' new d'.
           completeBuild ts self location user today d = (None, self', d') \<and>
           stock_items d' = stock_items d @ [new] \<and>
           si_part new = b_part self \<and> si_quantity new = b_quantity self \<and>
           build_items d' = build_items d \<and>
           b_completion_date self' = Some today \<and>
           b_completed_by self' = Some user \<and>
           b_status self' = COMPLETE \<and>
           self' \<in> set (builds d')"
proof -
  have "completeBuild_loop ts user (allocated_stock self d) d = (None, d)"
    by (simp add: assms)
  from completeBuild_success [OF this, of location today]
  obtain self' new d' where
    "completeBuild ts self location user today d = (None, self', d')"
    "stock_items d' = stock_items d @ [new]"
    "si_part new = b_part self" "si_quantity new = b_quantity self"
    "build_items d' = build_items d"
    "self' = self\<lparr>b_completion_date := Some today, b_completed_by := Some user,
                        b_status := COMPLETE, b_creation_date := today\<rparr>"
    "self' \<in> set (builds d')"
    by blast
  then show ?thesis by (intro exI [of _ self'] exI [of _ new] exI [of _ d']) simp
qed

theorem completeBuild_without_allocations_witness:
  "allocated_stock build0 db_new = [] \<and>
   (\<exists>self' new d'.
           completeBuild take_stock build0 0 7 200 db_new = (None, self', d') \<and>
           stock_items d' = stock_items db_new @ [new] \<and>
           si_part new = b_part build0 \<and> si_quantity new = b_quantity build0 \<and>
           build_items d' = build_items db_new \<and>
           b_completion_date self' = Some 200 \<and>
           b_completed_by self' = Some 7 \<and>
           b_status self' = COMPLETE \<and>
           self' \<in> set (builds d'))"
proof -
  have h: "allocated_stock build0 db_new = []"
    by (simp add: allocated_stock_def db_new_def)
  from h completeBuild_without_allocations [OF h] show ?thesis by blast
qed

subsection \<open>Cancellation\<close>

text \<open>
  C7. \<open>cancelBuild\<close> never raises. Afterwards no row of the allocation table belongs to
  the build, and when the rows have distinct primary keys the rows of other builds are
  all still there; the build's completion date and completed-by are the given date and
  user, its status is \<open>CANCELLED\<close>, the stored row of the build is the returned object,
  and the stock items, with their quantities, are exactly those before the call.
\<close>

theorem cancelBuild_effect:
  "\<exists>self' d'. cancelBuild self user today d = (None, self', d') \<and>
     filter (\<lambda>i. bi_build i = b_id self) (build_items d') = [] \<and>
     (distinct (map bi_id (build_items d)) \<longrightarrow>
        build_items d' = filter (\<lambda>i. bi_build i \<noteq> b_id self) (build_items d)) \<and>
     b_completion_date self' = Some today \<and>
     b_completed_by self' = Some user \<and>
     b_status self' = CANCELLED \<and>
     self' \<in> set (builds d') \<and>
     find (\<lambda>b. b_id b = b_id self) (builds d') = Some self' \<and>
     stock_items d' = stock_items d"
proof -
  define self' where "self' = self\<lparr>b_completion_date := Some today, b_completed_by := Some user,
                                    b_status := CANCELLED, b_creation_date := today\<rparr>"
  have as: "allocated_stock self d = filter (\<lambda>i. bi_build i = b_id self) (build_items d)"
    by (simp add: allocated_stock_def)
  from cancelBuild_result [of self user today d] obtain d' where
    c: "cancelBuild self user today d = (None, self', d')"
    and m: "self' \<in> set (builds d')"
    and b0: "build_items d'
      = filter (\<lambda>i. bi_id i \<notin> bi_id ` set (allocated_stock self d)) (build_items d)"
    and s: "stock_items d' = stock_items d"
    and f: "find (\<lambda>b. b_id b = b_id self) (builds d') = Some self'"
    unfolding self'_def by blast
  note b = b0 [unfolded as]
  have e: "filter (\<lambda>i. bi_build i = b_id self) (build_items d') = []"
    unfolding b using allocated_stock_after_delete [of self d] unfolding as .
  have k: "build_items d' = filter (\<lambda>i. bi_build i \<noteq> b_id self) (build_items d)"
    if "distinct (map bi_id (build_items d))"
    unfolding b filter_deleted_distinct [OF that] by simp
  have g: "b_completion_date self' = Some today" "b_completed_by self' = Some user"
    "b_status self' = CANCELLED"
    by (simp_all add: self'_def)
  from c e k g m f s show ?thesis by blast
qed

text \<open>
  Cancelling build 1 in \<open>db_two\<close> removes its two records and keeps the record of build 2;
  the stock quantities stay 7, 4 and 9.
\<close>

theorem cancelBuild_effect_witness:
  "distinct (map bi_id (build_items db_two)) \<and>
   fst (cancelBuild build0 7 200 db_two) = None \<and>
   build_items (snd (snd (cancelBuild build0 7 200 db_two))) = [item_other] \<and>
   map si_quantity (stock_items (snd (snd (cancelBuild build0 7 200 db_two)))) = [7, 4, 9] \<and>
   b_completion_date (fst (snd (cancelBuild build0 7 200 db_two))) = Some 200 \<and>
   b_completed_by (fst (snd (cancelBuild build0 7 200 db_two))) = Some 7 \<and>
   b_status (fst (snd (cancelBuild build0 7 200 db_two))) = CANCELLED \<and>
   find (\<lambda>b. b_id b = 1) (builds (snd (snd (cancelBuild build0 7 200 db_two))))
     = Some (fst (snd (cancelBuild build0 7 200 db_two)))"
proof -
  have h: "distinct (map bi_id (build_items db_two))"
    by code_simp
  have i: "b_id build0 = 1" by (simp add: build0_def)
  have o: "filter (\<lambda>i. bi_build i \<noteq> b_id build0) (build_items db_two) = [item_other]"
    by code_simp
  have q: "map si_quantity (stock_items db_two) = [7, 4, 9]"
    by code_simp
  from cancelBuild_effect [of build0 7 200 db_two] h obtain self' d' where
    n: "cancelBuild build0 7 200 db_two = (None, self', d')"
       "build_items d' = filter (\<lambda>i. bi_build i \<noteq> b_id build0) (build_items db_two)"
       "b_completion_date self' = Some 200" "b_completed_by self' = Some 7"
       "b_status self' = CANCELLED"
       "find (\<lambda>b. b_id b = b_id build0) (builds d') = Some self'"
       "stock_items d' = stock_items db_two"
    by blast
  from h n(2) [unfolded o] n(3-5) n(6) [unfolded i] q show ?thesis
    unfolding n(1) n(7) [symmetric] by simp
qed

text \<open>
  C9, as stated, fails: neither \<open>cancelBuild\<close> nor \<open>completeBuild\<close> looks at the status,
  so a later call overwrites the completion fields. Build 1 is completed on day 200 by
  user 7; cancelling it on day 300 as user 8 succeeds and leaves day 300 and user 8.
\<close>

theorem completion_fields_overwritten:
  "fst completed0 = None \<and>
   b_status (fst (snd completed0)) = COMPLETE \<and>
   b_completion_date (fst (snd completed0)) = Some 200 \<and>
   b_completed_by (fst (snd completed0)) = Some 7 \<and>
   fst cancelled0 = None \<and>
   b_status (fst (snd cancelled0)) = CANCELLED \<and>
   b_completion_date (fst (snd cancelled0)) = Some 300 \<and>
   b_completed_by (fst (snd cancelled0)) = Some 8 \<and>
   b_completion_date (fst (snd cancelled0)) \<noteq> b_completion_date (fst (snd completed0)) \<and>
   b_completed_by (fst (snd cancelled0)) \<noteq> b_completed_by (fst (snd completed0))"
  by code_simp

text \<open>
  C9, amended. The completion date and completed-by are set together and only by
  \<open>cancelBuild\<close>, which sets the status to \<open>CANCELLED\<close>, or by a successful
  \<open>completeBuild\<close>, which sets it to \<open>COMPLETE\<close>; both fields then hold that call's date
  and user. A failed \<open>completeBuild\<close>, \<open>unallocateStock\<close> and \<open>autoAllocate\<close> return the
  build object as it was and leave the table of builds as it was. So no operation ever
  unsets the fields.
\<close>

theorem completion_fields_set_together:
  "(\<exists>d'. cancelBuild self user today d
           = (None,
              self\<lparr>b_completion_date := Some today, b_completed_by := Some user,
                    b_status := CANCELLED, b_creation_date := today\<rparr>,
              d')) \<and>
   ((\<exists>d'. completeBuild ts self location user today d
            = (None,
               self\<lparr>b_completion_date := Some today, b_completed_by := Some user,
                     b_status := COMPLETE, b_creation_date := today\<rparr>,
               d')) \<or>
    (\<exists>e. completeBuild ts self location user today d = (Some e, self, d))) \<and>
   (\<exists>d'. unallocateStock self d = (None, self, d') \<and> builds d' = builds d) \<and>
   (\<exists>e d'. autoAllocate self d = (e, self, d') \<and> builds d' = builds d)"
proof -
  have a: "\<exists>d'. cancelBuild self user today d
           = (None,
              self\<lparr>b_completion_date := Some today, b_completed_by := Some user,
                    b_status := CANCELLED, b_creation_date := today\<rparr>,
              d')"
    using cancelBuild_result [of self user today d] by blast
  have b: "(\<exists>d'. completeBuild ts self location user today d
            = (None,
               self\<lparr>b_completion_date := Some today, b_completed_by := Some user,
                     b_status := COMPLETE, b_creation_date := today\<rparr>,
               d')) \<or>
    (\<exists>e. completeBuild ts self location user today d = (Some e, self, d))"
  proof (cases "completeBuild_loop ts user (allocated_stock self d) d")
    case (Pair e d1)
    show ?thesis
    proof (cases e)
      case None
      with Pair have "completeBuild_loop ts user (allocated_stock self d) d = (None, d1)"
        by simp
      from completeBuild_success [OF this, of location today] show ?thesis by blast
    next
      case (Some x)
      with Pair have "completeBuild_loop ts user (allocated_stock self d) d = (Some x, d1)"
        by simp
      from completeBuild_failure [OF this, of location today] show ?thesis by blast
    qed
  qed
  have c: "\<exists>d'. unallocateStock self d = (None, self, d') \<and> builds d' = builds d"
    by (simp add: unallocateStock_def transaction_atomic_def unallocateStock_body_def)
  have e: "\<exists>e d'. autoAllocate self d = (e, self, d') \<and> builds d' = builds d"
  proof -
    from autoAllocate_outcome [of self d] show ?thesis
    proof
      assume "\<exists>e d1. autoAllocate_loop self (getAutoAllocations self d) d = (Some e, d1) \<and>
            autoAllocate self d = (Some e, self, d)"
      then show ?thesis by blast
    next
      assume "\<exists>d'. autoAllocate_loop self (getAutoAllocations self d) d = (None, d') \<and>
          autoAllocate self d = (None, self, d')"
      then obtain d' where l: "autoAllocate_loop self (getAutoAllocations self d) d = (None, d')"
        and r: "autoAllocate self d = (None, self, d')"
        by blast
      from autoAllocate_loop_success [OF l] have "builds d' = builds d" by blast
      with r show ?thesis by blast
    qed
  qed
  from a b c e show ?thesis by blast
qed

theorem completion_fields_set_together_witness:
  "b_completion_date (fst (snd (cancelBuild build0 7 200 db0))) = Some 200 \<and>
   b_completed_by (fst (snd (cancelBuild build0 7 200 db0))) = Some 7 \<and>
   b_status (fst (snd (cancelBuild build0 7 200 db0))) = CANCELLED \<and>
   fst (snd (completeBuild take_stock build0 0 7 200 db_short)) = build0 \<and>
   fst (snd (unallocateStock build0 db0)) = build0 \<and>
   fst (snd (autoAllocate build0 db_new)) = build0"
proof -
  note t = completion_fields_set_together [of build0 7 200 db0 take_stock 0]
  note u = completion_fields_set_together [of build0 7 200 db_short take_stock 0]
  note v = completion_fields_set_together [of build0 7 200 db_new take_stock 0]
  from t obtain d' where "cancelBuild build0 7 200 db0
           = (None,
              build0\<lparr>b_completion_date := Some 200, b_completed_by := Some 7,
                    b_status := CANCELLED, b_creation_date := 200\<rparr>,
              d')"
    by blast
  then have a: "b_completion_date (fst (snd (cancelBuild build0 7 200 db0))) = Some 200"
    "b_completed_by (fst (snd (cancelBuild build0 7 200 db0))) = Some 7"
    "b_status (fst (snd (cancelBuild build0 7 200 db0))) = CANCELLED"
    by simp_all
  have f: "fst (completeBuild take_stock build0 0 7 200 db_short) \<noteq> None"
    by code_simp
  from u f have b: "fst (snd (completeBuild take_stock build0 0 7 200 db_short)) = build0"
    by auto
  from t have c: "fst (snd (unallocateStock build0 db0)) = build0" by auto
  from v have e: "fst (snd (autoAllocate build0 db_new)) = build0" by auto
  from a b c e show ?thesis by simp
qed

subsection \<open>Quantity accounting and buildability\<close>

text \<open>
  C4. Assume the BOM holds at most one line for the pair (target part, \<open>p\<close>), the stock
  items have distinct primary keys, the quantities of the allocation table are not
  negative and their sum is below \<open>2 ^ 63\<close>, so that the database sum does not overflow.
  Then the required quantity is the line's quantity times the build quantity, or 0 without
  a line; the allocated quantity is the sum of the quantities of the rows of the
  allocation table that belong to the build and whose stock item is a stock item of part
  \<open>p\<close>, which is 0 when there are none; and the unallocated quantity is the maximum of
  their difference and 0, hence never negative.
\<close>

theorem getUnallocatedQuantity_max:
  assumes "length (filter (\<lambda>item. bom_part item = b_part self \<and> bom_sub_part item = p)
                          (bom_items d)) \<le> 1"
    and "distinct (map si_id (stock_items d))"
    and "\<forall>i\<in>set (build_items d). 0 \<le> bi_quantity i"
    and "sum_list (map bi_quantity (build_items d)) < 2 ^ 63"
  shows "\<exists>required allocated.
           required = (case filter (\<lambda>item. bom_part item = b_part self \<and> bom_sub_part item = p)
                                   (bom_items d) of
                         [] \<Rightarrow> 0
                       | item # _ \<Rightarrow> bom_quantity item * b_quantity self) \<and>
           allocated = sum_list (map bi_quantity
                         (filter (\<lambda>i. bi_build i = b_id self \<and>
                                    (\<exists>s\<in>set (stock_items d).
                                       si_id s = bi_stock_item i \<and> si_part s = p))
                                 (build_items d))) \<and>
           getRequiredQuantity self p d = Inr required \<and>
           getAllocatedQuantity self p d = Inr allocated \<and>
           getUnallocatedQuantity self p d = Inr (max (required - allocated) 0) \<and>
           0 \<le> max (required - allocated) 0"
proof -
  have a: "getAllocatedQuantity self p d
      = Inr (sum_list (map bi_quantity
               (filter (\<lambda>i. bi_build i = b_id self \<and>
                          (\<exists>s\<in>set (stock_items d). si_id s = bi_stock_item i \<and> si_part s = p))
                       (build_items d))))"
    unfolding getAllocatedQuantity_sum [OF assms(3,4)] allocated_to_part_rows [OF assms(2)] ..
  show ?thesis
  proof (cases "filter (\<lambda>item. bom_part item = b_part self \<and> bom_sub_part item = p) (bom_items d)")
    case Nil
    then show ?thesis
      by (simp add: getUnallocatedQuantity_def getRequiredQuantity_def a)
  next
    case (Cons item rest)
    with assms(1) have "rest = []" by simp
    with Cons show ?thesis
      by (simp add: getUnallocatedQuantity_def getRequiredQuantity_def a)
  qed
qed

text \<open>
  In \<open>db_two\<close> build 1 needs ten units of part 2 and holds four; the three units build 2
  holds of the same stock item and the two units build 1 holds of part 3 do not count.
\<close>

theorem getUnallocatedQuantity_max_witness:
  "getRequiredQuantity build0 2 db_two = Inr 10 \<and>
   getAllocatedQuantity build0 2 db_two = Inr 4 \<and>
   getUnallocatedQuantity build0 2 db_two = Inr 6"
proof -
  have h1: "length (filter (\<lambda>item. bom_part item = b_part build0 \<and> bom_sub_part item = 2)
                          (bom_items db_two)) \<le> 1"
    by code_simp
  have h2: "distinct (map si_id (stock_items db_two))"
    by code_simp
  have h3: "\<forall>i\<in>set (build_items db_two). 0 \<le> bi_quantity i"
    by code_simp
  have h4: "sum_list (map bi_quantity (build_items db_two)) < 2 ^ 63"
    by code_simp
  have r: "(case filter (\<lambda>item. bom_part item = b_part build0 \<and> bom_sub_part item = 2)
                        (bom_items db_two) of
              [] \<Rightarrow> 0
            | item # _ \<Rightarrow> bom_quantity item * b_quantity build0) = 10"
    by code_simp
  have a: "sum_list (map bi_quantity
             (filter (\<lambda>i. bi_build i = b_id build0 \<and>
                        (\<exists>s\<in>set (stock_items db_two).
                           si_id s = bi_stock_item i \<and> si_part s = 2))
                     (build_items db_two))) = 4"
    by code_simp
  from getUnallocatedQuantity_max [OF h1 h2 h3 h4] show ?thesis
    unfolding r a by simp
qed

text \<open>
  C8. Assume the quantities of the allocation table are not negative and their sum is
  below \<open>2 ^ 63\<close>, so that no allocated-quantity query made for the list of required parts
  overflows. Then \<open>can_build\<close> returns true exactly when, for every line of the BOM table
  whose parent is the build's target part, the line's quantity times the build quantity
  is at most the sum of the quantities of all stock items of the line's sub-part. The
  right-hand side does not read the allocation table. When the table holds no line of the
  target part, \<open>can_build\<close> returns true.
\<close>

theorem can_build_iff:
  assumes "\<forall>i\<in>set (build_items d). 0 \<le> bi_quantity i"
    and "sum_list (map bi_quantity (build_items d)) < 2 ^ 63"
  shows "can_build self d
           = Inr (\<forall>item\<in>set (bom_items d).
                    bom_part item = b_part self \<longrightarrow>
                    bom_quantity item * b_quantity self
                      \<le> sum_list (map si_quantity
                           (filter (\<lambda>s. si_part s = bom_sub_part item) (stock_items d)))) \<and>
         ((\<forall>item\<in>set (bom_items d). bom_part item \<noteq> b_part self) \<longrightarrow>
            can_build self d = Inr True)"
proof -
  have r: "required_parts self d
      = Inr (map (\<lambda>item. \<lparr>rp_part = bom_sub_part item,
                           rp_per_build = bom_quantity item,
                           rp_quantity = bom_quantity item * b_quantity self,
                           rp_allocated = sum_list (map bi_quantity
                              (allocated_to_part self (bom_sub_part item) d))\<rparr>)
                 (part_bom_items (b_part self) d))"
    unfolding required_parts_def
    by (simp add: required_parts_loop_value
          [of self d "\<lambda>p. sum_list (map bi_quantity (allocated_to_part self p d))",
           OF getAllocatedQuantity_sum [OF assms]])
  have c: "can_build self d
           = Inr (\<forall>item\<in>set (bom_items d).
                    bom_part item = b_part self \<longrightarrow>
                    bom_quantity item * b_quantity self
                      \<le> sum_list (map si_quantity
                           (filter (\<lambda>s. si_part s = bom_sub_part item) (stock_items d))))"
    by (auto simp: can_build_def r can_build_loop_all part_bom_items_def total_stock_def
        StockItem_filter_part_def)
  show ?thesis unfolding c by auto
qed

text \<open>
  The line of part 50, which asks for sixty units of part 2 per unit, plays no role for
  build 1: five units cannot be built, three can.
\<close>

theorem can_build_iff_witness:
  "can_build build0 db_two = Inr False \<and>
   can_build (build0\<lparr>b_quantity := 3\<rparr>) db_two = Inr True"
proof -
  have h1: "\<forall>i\<in>set (build_items db_two). 0 \<le> bi_quantity i"
    by code_simp
  have h2: "sum_list (map bi_quantity (build_items db_two)) < 2 ^ 63"
    by code_simp
  have a: "(\<forall>item\<in>set (bom_items db_two).
                    bom_part item = b_part build0 \<longrightarrow>
                    bom_quantity item * b_quantity build0
                      \<le> sum_list (map si_quantity
                           (filter (\<lambda>s. si_part s = bom_sub_part item) (stock_items db_two))))
            = False"
    by code_simp
  have b: "(\<forall>item\<in>set (bom_items db_two).
                    bom_part item = b_part (build0\<lparr>b_quantity := 3\<rparr>) \<longrightarrow>
                    bom_quantity item * b_quantity (build0\<lparr>b_quantity := 3\<rparr>)
                      \<le> sum_list (map si_quantity
                           (filter (\<lambda>s. si_part s = bom_sub_part item) (stock_items db_two))))
            = True"
    by code_simp
  from conjunct1 [OF can_build_iff [OF h1 h2, of build0]]
    conjunct1 [OF can_build_iff [OF h1 h2, of "build0\<lparr>b_quantity := 3\<rparr>"]]
  show ?thesis unfolding a b by simp
qed

subsection \<open>Auto-allocation\<close>

text \<open>
  C5. For a BOM line of the target part whose sub-part is held by exactly one stock item,
  with positive quantity and without an allocation record linking it to the build, the
  loop body appends exactly one proposal, for that stock item and the smaller of the
  required quantity and the stock item's quantity, and \<open>getAutoAllocations\<close> returns
  it. Every proposal returned is for a stock item of the database and for at most that
  stock item's quantity.
\<close>

theorem getAutoAllocations_min:
  "(item \<in> set (part_bom_items (b_part self) d) \<and>
    StockItem_filter_part (bom_sub_part item) d = [s] \<and>
    0 < si_quantity s \<and>
    filter (\<lambda>i. bi_build i = b_id self \<and> bi_stock_item i = si_id s) (build_items d) = []
    \<longrightarrow>
      getAutoAllocations_item self d item allocations
        = allocations @ [\<lparr>a_stock_item = s,
                          a_quantity = min (bom_quantity item * b_quantity self) (si_quantity s)\<rparr>] \<and>
      \<lparr>a_stock_item = s,
        a_quantity = min (bom_quantity item * b_quantity self) (si_quantity s)\<rparr>
        \<in> set (getAutoAllocations self d)) \<and>
   (\<forall>a\<in>set (getAutoAllocations self d).
      a_stock_item a \<in> set (stock_items d) \<and>
      a_quantity a \<le> si_quantity (a_stock_item a))"
  using getAutoAllocations_item_proposes [of item d s self allocations]
    getAutoAllocations_member [of item self d s]
    getAutoAllocations_capped [of _ self d]
  by blast

theorem getAutoAllocations_min_witness:
  "\<lparr>bom_part = 1, bom_sub_part = 2, bom_quantity = 2\<rparr> \<in> set (part_bom_items (b_part build0) db_new) \<and>
   StockItem_filter_part 2 db_new
     = [\<lparr>si_id = 1, si_part = 2, si_location = 0, si_quantity = 7, si_batch = []\<rparr>] \<and>
   filter (\<lambda>i. bi_build i = b_id build0 \<and> bi_stock_item i = 1) (build_items db_new) = [] \<and>
   \<lparr>a_stock_item = \<lparr>si_id = 1, si_part = 2, si_location = 0, si_quantity = 7, si_batch = []\<rparr>,
     a_quantity = 7\<rparr> \<in> set (getAutoAllocations build0 db_new)"
proof -
  define line where "line = \<lparr>bom_part = 1, bom_sub_part = 2, bom_quantity = 2\<rparr>"
  define s where "s = \<lparr>si_id = 1, si_part = 2, si_location = 0, si_quantity = 7, si_batch = []\<rparr>"
  have h1: "line \<in> set (part_bom_items (b_part build0) db_new)"
    by (simp add: line_def part_bom_items_def db_new_def bom0_def build0_def)
  have h2: "StockItem_filter_part (bom_sub_part line) db_new = [s]"
    by (simp add: line_def s_def StockItem_filter_part_def db_new_def stock0_def)
  have h3: "0 < si_quantity s" by (simp add: s_def)
  have h4: "filter (\<lambda>i. bi_build i = b_id build0 \<and> bi_stock_item i = si_id s)
              (build_items db_new) = []"
    by (simp add: db_new_def)
  have m: "min (bom_quantity line * b_quantity build0) (si_quantity s) = 7"
    by (simp add: line_def s_def build0_def)
  from conjunct1 [OF getAutoAllocations_min [of line build0 db_new s "[]"]] h1 h2 h3 h4
  have "\<lparr>a_stock_item = s,
          a_quantity = min (bom_quantity line * b_quantity build0) (si_quantity s)\<rparr>
        \<in> set (getAutoAllocations build0 db_new)"
    by blast
  with h1 h2 h4 show ?thesis
    by (simp add: m) (simp add: line_def s_def)
qed

text \<open>
  C6. After a successful \<open>autoAllocate\<close>: a BOM line whose single candidate stock item
  has an allocation record for the build adds nothing to the proposals; every stock item
  proposed before now has such a record; and \<open>getAutoAllocations\<close> proposes nothing at
  all.
\<close>

theorem autoAllocate_idempotent:
  assumes "autoAllocate self d = (None, self', d')"
  shows "(\<forall>item\<in>set (part_bom_items (b_part self) d'). \<forall>s.
            StockItem_filter_part (bom_sub_part item) d' = [s] \<and>
            filter (\<lambda>i. bi_build i = b_id self \<and> bi_stock_item i = si_id s) (build_items d') \<noteq> []
            \<longrightarrow> getAutoAllocations_item self d' item allocations = allocations) \<and>
         (\<forall>a\<in>set (getAutoAllocations self d).
            filter (\<lambda>i. bi_build i = b_id self \<and> bi_stock_item i = si_id (a_stock_item a))
                   (build_items d') \<noteq> []) \<and>
         getAutoAllocations self d' = []"
proof -
  from assms autoAllocate_outcome [of self d]
  have l: "autoAllocate_loop self (getAutoAllocations self d) d = (None, d')"
    by auto
  have a: "getAutoAllocations_item self d' item allocations = allocations"
    if "item \<in> set (part_bom_items (b_part self) d')" for item
    using no_second_proposal [OF l that] getAutoAllocations_item_append [of self d' item allocations]
    by simp
  have b: "filter (\<lambda>i. bi_build i = b_id self \<and> bi_stock_item i = si_id (a_stock_item a))
                   (build_items d') \<noteq> []"
    if "a \<in> set (getAutoAllocations self d)" for a
    using proposal_persisted [OF l that] .
  have c: "getAutoAllocations self d' = []"
    by (simp add: getAutoAllocations_concat no_second_proposal [OF l])
  from a b c show ?thesis by blast
qed

theorem autoAllocate_idempotent_witness:
  "fst (autoAllocate build0 db_new) = None \<and>
   getAutoAllocations build0 db_new \<noteq> [] \<and>
   getAutoAllocations build0 (snd (snd (autoAllocate build0 db_new))) = []"
proof -
  have e: "fst (autoAllocate build0 db_new) = None"
    by code_simp
  have n: "getAutoAllocations build0 db_new \<noteq> []"
    by code_simp
  have h: "autoAllocate build0 db_new
             = (None, fst (snd (autoAllocate build0 db_new)), snd (snd (autoAllocate build0 db_new)))"
    by (metis e prod.collapse)
  from autoAllocate_idempotent [OF h, of "[]"]
  have "getAutoAllocations build0 (snd (snd (autoAllocate build0 db_new))) = []"
    by blast
  with e n show ?thesis by simp
qed




end
